theory Spec2Isabelle
  imports Main "HOL-Library.AList" "HOL-Library.Sublist" "HOL-Library.Char_ord"
    "HOL-Library.List_Lexorder"
begin

section \<open>Python values, strings and exceptions\<close>

text \<open>
  The catalog (\<^verbatim>\<open>catalog.py\<close>) and the validator (\<^verbatim>\<open>validator.py\<close>) are embedded as
  HOL functions. A Python \<^verbatim>\<open>str\<close> is a \<open>string\<close>; a \<open>char\<close> stands for the code point of
  the same number, so the texts covered are those of the Latin-1 range (code points
  below 256), and \<open>length\<close> counts code points as \<^verbatim>\<open>len\<close> does. A \<^verbatim>\<open>dict\<close> is an association
  list with distinct keys in insertion order: \<open>map_of\<close> reads it, \<open>AList.update\<close> is
  \<^verbatim>\<open>d[k] = v\<close> (an existing key keeps its position, a new key goes last).
\<close>

datatype exn =
    KeyError string
  | TypeError
  | AttributeError
  | ValueError string
  | YAMLError string
  | JSONDecodeError string
  | ReadError
    \<comment> \<open>the \<^verbatim>\<open>OSError\<close> or \<^verbatim>\<open>UnicodeDecodeError\<close> of \<^verbatim>\<open>read_text\<close>\<close>
  | Untyped string
    \<comment> \<open>not a Python exception: the document gives a dataclass field a value outside the
        field's annotation, which the typed record below cannot hold\<close>

text \<open>What \<^verbatim>\<open>yaml.safe_load\<close> and \<^verbatim>\<open>json.loads\<close> build (floats, dates and binaries left out).\<close>

datatype pyobj =
    PNone
  | PBool bool
  | PInt int
  | PStr string
  | PList "pyobj list"
  | PDict "(pyobj \<times> pyobj) list"

fun truthy :: "pyobj \<Rightarrow> bool" where
  "truthy PNone = False"
| "truthy (PBool b) = b"
| "truthy (PInt i) = (i \<noteq> 0)"
| "truthy (PStr s) = (s \<noteq> [])"
| "truthy (PList xs) = (xs \<noteq> [])"
| "truthy (PDict kvs) = (kvs \<noteq> [])"

text \<open>\<^verbatim>\<open>d.get(key)\<close> for a literal string key: only the key \<^verbatim>\<open>str\<close> equal to it is found.\<close>

definition dict_get :: "(pyobj \<times> pyobj) list \<Rightarrow> string \<Rightarrow> pyobj option" where
  "dict_get d k = map_of d (PStr k)"

text \<open>\<^verbatim>\<open>x.get(key, default)\<close>: only a \<^verbatim>\<open>dict\<close> has the method.\<close>

fun py_get :: "pyobj \<Rightarrow> string \<Rightarrow> pyobj \<Rightarrow> exn + pyobj" where
  "py_get (PDict d) k dflt = Inr (case dict_get d k of None \<Rightarrow> dflt | Some v \<Rightarrow> v)"
| "py_get _ k dflt = Inl AttributeError"

text \<open>\<^verbatim>\<open>\w\<close> of the \<^verbatim>\<open>re\<close> module on a \<^verbatim>\<open>str\<close> pattern: alphanumeric code points and the underscore.\<close>

definition is_word :: "char \<Rightarrow> bool" where
  "is_word c =
     (let n = (of_char c :: nat) in
        (48 \<le> n \<and> n \<le> 57) \<or> (65 \<le> n \<and> n \<le> 90) \<or> n = 95 \<or> (97 \<le> n \<and> n \<le> 122) \<or>
        n = 170 \<or> n = 178 \<or> n = 179 \<or> n = 181 \<or> n = 185 \<or> n = 186 \<or>
        (188 \<le> n \<and> n \<le> 190) \<or> (192 \<le> n \<and> n \<le> 214) \<or> (216 \<le> n \<and> n \<le> 246) \<or> 248 \<le> n)"

text \<open>\<^verbatim>\<open>str.lower\<close> and the white space of \<^verbatim>\<open>str.strip\<close>, on the same range.\<close>

definition lower_char :: "char \<Rightarrow> char" where
  "lower_char c =
     (let n = (of_char c :: nat) in
        if (65 \<le> n \<and> n \<le> 90) \<or> (192 \<le> n \<and> n \<le> 214) \<or> (216 \<le> n \<and> n \<le> 222)
        then char_of (n + 32) else c)"

definition lower :: "string \<Rightarrow> string" where
  "lower s = map lower_char s"

definition is_space :: "char \<Rightarrow> bool" where
  "is_space c =
     (let n = (of_char c :: nat) in
        (9 \<le> n \<and> n \<le> 13) \<or> (28 \<le> n \<and> n \<le> 32) \<or> n = 133 \<or> n = 160)"

definition strip :: "string \<Rightarrow> string" where
  "strip s = rev (dropWhile is_space (rev (dropWhile is_space s)))"

text \<open>\<^verbatim>\<open>sep.join(xs)\<close>.\<close>

fun join :: "string \<Rightarrow> string list \<Rightarrow> string" where
  "join sep [] = []"
| "join sep [x] = x"
| "join sep (x # y # ys) = x @ sep @ join sep (y # ys)"

text \<open>
  \<^verbatim>\<open>s.replace(old, new)\<close>: the occurrences of \<open>old\<close> are replaced from left to right, the
  search going on after each replaced occurrence; an empty \<open>old\<close> matches before every
  character and at the end.
\<close>

function str_replace :: "string \<Rightarrow> string \<Rightarrow> string \<Rightarrow> string" where
  "str_replace old new [] = (if old = [] then new else [])"
| "str_replace old new (c # cs) =
     (if old = [] then new @ c # str_replace old new cs
      else if prefix old (c # cs) then new @ str_replace old new (drop (length old) (c # cs))
      else c # str_replace old new cs)"
  by pat_completeness auto
termination
  by (relation "measure (\<lambda>(old, new, s). length s)") auto

text \<open>\<^verbatim>\<open>s.index(sub, start)\<close> for \<open>start \<le> len(s)\<close>: the least position from \<open>start\<close> on where
  \<open>sub\<close> occurs, \<^verbatim>\<open>ValueError\<close> when there is none.\<close>

fun find_at :: "string \<Rightarrow> string \<Rightarrow> nat \<Rightarrow> nat option" where
  "find_at sub [] pos = (if sub = [] then Some pos else None)"
| "find_at sub (c # cs) pos =
     (if prefix sub (c # cs) then Some pos else find_at sub cs (Suc pos))"

definition str_index :: "string \<Rightarrow> string \<Rightarrow> nat \<Rightarrow> exn + nat" where
  "str_index s sub start =
     (case find_at sub (drop start s) start of
        None \<Rightarrow> Inl (ValueError ''substring not found'')
      | Some i \<Rightarrow> Inr i)"

text \<open>
  \<^verbatim>\<open>re.findall(r"\{\{(\w+)\}\}", text)\<close>. At a position the pattern matches when two
  opening braces are followed by the longest run of word characters, not empty, and two
  closing braces (a shorter run is followed by a word character, never by a brace, so
  backtracking finds nothing more). The scan goes on after a match, and one character
  further where there is none; the group, the name, is what is collected.
\<close>

definition match_placeholder :: "string \<Rightarrow> (string \<times> string) option" where
  "match_placeholder s =
     (if prefix ''{{'' s then
        (let body = drop 2 s; name = takeWhile is_word body; rest = dropWhile is_word body
         in if name \<noteq> [] \<and> prefix ''}}'' rest then Some (name, drop 2 rest) else None)
      else None)"

lemma match_placeholder_shorter:
  "match_placeholder s = Some (name, rest) \<Longrightarrow> length rest < length s"
proof -
  assume m: "match_placeholder s = Some (name, rest)"
  then have r: "rest = drop 2 (dropWhile is_word (drop 2 s))" and p: "prefix ''{{'' s"
    by (auto simp: match_placeholder_def Let_def split: if_splits)
  have "length (dropWhile is_word (drop 2 s)) \<le> length (drop 2 s)"
    by (rule length_dropWhile_le)
  moreover from p have "2 \<le> length s"
    by (auto simp: prefix_def)
  ultimately show ?thesis
    using r by simp
qed

function findall_placeholders :: "string \<Rightarrow> string list" where
  "findall_placeholders [] = []"
| "findall_placeholders (c # cs) =
     (case match_placeholder (c # cs) of
        Some (name, rest) \<Rightarrow> name # findall_placeholders rest
      | None \<Rightarrow> findall_placeholders cs)"
  by pat_completeness auto
termination
  by (relation "measure length") (auto dest: match_placeholder_shorter)

text \<open>\<^verbatim>\<open>list(dict.fromkeys(xs))\<close>: the keys of the \<^verbatim>\<open>dict\<close> that receives each element in turn.\<close>

definition fromkeys :: "'a list \<Rightarrow> 'a list" where
  "fromkeys xs = map fst (foldl (\<lambda>d k. AList.update k () d) [] xs)"


section \<open>The catalog: \<^verbatim>\<open>catalog.py\<close>\<close>

definition PROMPT_DIRS :: "string list" where
  "PROMPT_DIRS = [''planning'', ''architecture'', ''development'', ''testing'', ''security'',
     ''deployment'', ''operations'', ''domains'']"

definition INSTRUCTION_SCOPES :: "string list" where
  "INSTRUCTION_SCOPES = [''phases'', ''guardrails'', ''platforms'']"

definition SKILL_ORDER :: "string list" where
  "SKILL_ORDER = [''beginner'', ''intermediate'', ''advanced'', ''expert'']"

text \<open>
  The dataclasses, with the types of their annotations. Fields carry the prefix of their
  class (\<open>p_\<close>, \<open>i_\<close>, \<open>k_\<close>) since the classes share field names. \<^verbatim>\<open>chain_position\<close> is the
  \<^verbatim>\<open>dict\<close> of the \<^verbatim>\<open>previous\<close> and \<^verbatim>\<open>next\<close> identifier lists.
\<close>

record PromptEntry =
  p_id :: string
  p_version :: string
  p_title :: string
  p_description :: string
  p_category :: string
  p_subcategory :: string
  p_skill_level :: string
  p_platforms :: "string list"
  p_tags :: "string list"
  p_prompt_text :: string
  p_variables :: "(pyobj \<times> pyobj) list list"
  p_expected_output :: string
  p_quality_criteria :: "string list"
  p_anti_patterns :: "string list"
  p_adversarial_tests :: "(pyobj \<times> pyobj) list list"
  p_related_prompts :: "string list"
  p_chain_position :: "(string \<times> string list) list"
  p_file_path :: string
  p_raw :: pyobj

record InstructionEntry =
  i_stem :: string
  i_scope :: string
  i_file_path :: string
  i_name :: string
  i_description :: string

record StarterKit =
  k_id :: string
  k_name :: string
  k_description :: string
  k_target_audience :: string
  k_prompts :: "string list"
  k_instructions :: "string list"
  k_tags :: "string list"
  k_raw :: pyobj

record Catalog =
  root :: string
  prompts :: "(string \<times> PromptEntry) list"
  instructions :: "(string \<times> InstructionEntry) list"
  starter_kits :: "(string \<times> StarterKit) list"

subsection \<open>\<^verbatim>\<open>PromptEntry.extract_variable_names\<close> and \<^verbatim>\<open>PromptEntry.render\<close>\<close>

definition extract_variable_names :: "PromptEntry \<Rightarrow> string list" where
  "extract_variable_names self = fromkeys (findall_placeholders (p_prompt_text self))"

text \<open>The placeholder \<^verbatim>\<open>f"{{{{{key}}}}}"\<close> of a key.\<close>

definition placeholder :: "string \<Rightarrow> string" where
  "placeholder key = ''{{'' @ key @ ''}}''"

text \<open>\<open>arguments\<close> is \<^verbatim>\<open>None\<close> or a \<^verbatim>\<open>dict\<close>, whose items come in insertion order.\<close>

definition render :: "PromptEntry \<Rightarrow> (string \<times> string) list option \<Rightarrow> string" where
  "render self arguments =
     (case arguments of
        None \<Rightarrow> p_prompt_text self
      | Some args \<Rightarrow>
          if args = [] then p_prompt_text self
          else foldl (\<lambda>text (key, value). str_replace (placeholder key) value text)
                 (p_prompt_text self) args)"

subsection \<open>\<^verbatim>\<open>Catalog.filter_prompts\<close>\<close>

text \<open>\<^verbatim>\<open>xs.index(x)\<close>.\<close>

fun list_index :: "'a list \<Rightarrow> 'a \<Rightarrow> exn + nat" where
  "list_index [] x = Inl (ValueError ''not in list'')"
| "list_index (y # ys) x = (if y = x then Inr 0 else map_sum id Suc (list_index ys x))"

text \<open>The keyword arguments; each is \<^verbatim>\<open>None\<close> or a \<^verbatim>\<open>str\<close>, and counts when it is not empty.\<close>

record criteria =
  category :: "string option"
  subcategory :: "string option"
  skill_level :: "string option"
  platform :: "string option"
  tag :: "string option"
  query :: "string option"

definition given :: "string option \<Rightarrow> bool" where
  "given a = (case a of None \<Rightarrow> False | Some s \<Rightarrow> s \<noteq> [])"

text \<open>The skill test of the loop body: \<open>Inr True\<close> when the prompt is skipped.\<close>

definition above_skill :: "string \<Rightarrow> PromptEntry \<Rightarrow> exn + bool" where
  "above_skill lvl p =
     (case list_index SKILL_ORDER lvl of
        Inl e \<Rightarrow> Inl e
      | Inr max_idx \<Rightarrow>
          (case list_index SKILL_ORDER (p_skill_level p) of
             Inl e \<Rightarrow> Inl e
           | Inr cur_idx \<Rightarrow> Inr (cur_idx > max_idx)))"

definition searchable :: "PromptEntry \<Rightarrow> string" where
  "searchable p = lower (p_title p @ '' '' @ p_description p @ '' '' @ join '' '' (p_tags p))"

text \<open>One turn of the loop: \<open>Inr True\<close> when \<open>p\<close> is appended to the results.\<close>

definition keeps :: "criteria \<Rightarrow> PromptEntry \<Rightarrow> exn + bool" where
  "keeps c p =
     (if given (category c) \<and> Some (p_category p) \<noteq> category c then Inr False
      else if given (subcategory c) \<and> Some (p_subcategory p) \<noteq> subcategory c then Inr False
      else
        (case (if given (skill_level c) then above_skill (the (skill_level c)) p else Inr False) of
           Inl e \<Rightarrow> Inl e
         | Inr True \<Rightarrow> Inr False
         | Inr False \<Rightarrow>
             if given (platform c) \<and> the (platform c) \<notin> set (p_platforms p)
                \<and> ''all'' \<notin> set (p_platforms p) then Inr False
             else if given (tag c) \<and> the (tag c) \<notin> set (p_tags p) then Inr False
             else if given (query c) \<and> \<not> sublist (lower (the (query c))) (searchable p)
               then Inr False
             else Inr True))"

fun filter_loop :: "criteria \<Rightarrow> PromptEntry list \<Rightarrow> PromptEntry list \<Rightarrow> exn + PromptEntry list"
  where
  "filter_loop c results [] = Inr results"
| "filter_loop c results (p # ps) =
     (case keeps c p of
        Inl e \<Rightarrow> Inl e
      | Inr k \<Rightarrow> filter_loop c (if k then results @ [p] else results) ps)"

definition filter_prompts :: "Catalog \<Rightarrow> criteria \<Rightarrow> exn + PromptEntry list" where
  "filter_prompts self c = filter_loop c [] (map snd (prompts self))"

subsection \<open>\<^verbatim>\<open>Catalog.get_chain\<close>\<close>





subsection \<open>\<^verbatim>\<open>Catalog.resolve_kit\<close>\<close>

definition resolve_kit ::
  "Catalog \<Rightarrow> string \<Rightarrow> exn + (PromptEntry list \<times> InstructionEntry list)" where
  "resolve_kit self kit_id =
     (case map_of (starter_kits self) kit_id of
        None \<Rightarrow> Inl (ValueError (''Starter kit not found: '' @ kit_id))
      | Some kit \<Rightarrow>
          Inr (map (\<lambda>pid. the (map_of (prompts self) pid))
                 (filter (\<lambda>pid. map_of (prompts self) pid \<noteq> None) (k_prompts kit)),
               map (\<lambda>iid. the (map_of (instructions self) iid))
                 (filter (\<lambda>iid. map_of (instructions self) iid \<noteq> None) (k_instructions kit))))"

subsection \<open>Files and parsing\<close>

text \<open>
  The catalog root on disk. A YAML or JSON file is given by what \<^verbatim>\<open>read_text\<close> and the
  parser make of it: it cannot be read, or it does not parse (with the parser's message),
  or it is a document. An instruction file is given by its text. A directory is \<open>None\<close>
  when it is missing, else the list of its entries by name. \<open>path_exists t p\<close> says
  whether \<^verbatim>\<open>root / p\<close> exists.
\<close>

datatype yaml_file = Unreadable | Malformed string | Document pyobj

datatype text_file = Undecodable | Text string

record tree =
  root_path :: string
  schema_file :: "yaml_file option"
  index_file :: "yaml_file option"
  prompt_dir :: "string \<Rightarrow> (string \<times> yaml_file) list option"
  instruction_dir :: "string \<Rightarrow> (string \<times> text_file) list option"
  kits_dir :: "(string \<times> yaml_file) list option"
  path_exists :: "string \<Rightarrow> bool"

text \<open>\<^verbatim>\<open>sorted(d.glob("*" + ext))\<close>: the entries whose name ends with \<open>ext\<close>, by name.\<close>

definition glob :: "string \<Rightarrow> (string \<times> 'a) list \<Rightarrow> (string \<times> 'a) list" where
  "glob ext entries = sort_key fst (filter (\<lambda>(name, f). suffix ext name) entries)"

text \<open>\<^verbatim>\<open>Path.name\<close> and \<^verbatim>\<open>Path.stem\<close>: the stem drops the last suffix, a dot neither first nor
  last in the name.\<close>

definition path_name :: "string \<Rightarrow> string" where
  "path_name p = rev (takeWhile (\<lambda>c. c \<noteq> CHR ''/'') (rev p))"

definition path_stem :: "string \<Rightarrow> string" where
  "path_stem p =
     (let name = path_name p;
          i = length name - length (takeWhile (\<lambda>c. c \<noteq> CHR ''.'') (rev name)) - 1
      in if CHR ''.'' \<in> set name \<and> 0 < i \<and> i < length name - 1 then take i name else name)"

text \<open>Sequencing of steps that may raise.\<close>

definition and_then :: "exn + 'a \<Rightarrow> ('a \<Rightarrow> exn + 'b) \<Rightarrow> exn + 'b" where
  "and_then m f = (case m of Inl e \<Rightarrow> Inl e | Inr x \<Rightarrow> f x)"

fun fold_exn :: "('s \<Rightarrow> 'a \<Rightarrow> exn + 's) \<Rightarrow> 's \<Rightarrow> 'a list \<Rightarrow> exn + 's" where
  "fold_exn f s [] = Inr s"
| "fold_exn f s (x # xs) = and_then (f s x) (\<lambda>s'. fold_exn f s' xs)"

text \<open>\<^verbatim>\<open>data[key]\<close> for a literal string key.\<close>

fun py_subscript :: "pyobj \<Rightarrow> string \<Rightarrow> exn + pyobj" where
  "py_subscript (PDict d) k = (case dict_get d k of None \<Rightarrow> Inl (KeyError k) | Some v \<Rightarrow> Inr v)"
| "py_subscript _ k = Inl TypeError"

text \<open>
  The values of the annotated types, read off the document. Python stores whatever the
  document holds; a value outside the annotation has no counterpart in the record and is
  reported as \<open>Untyped\<close> with the name of the field.
\<close>

fun as_str :: "string \<Rightarrow> pyobj \<Rightarrow> exn + string" where
  "as_str field (PStr s) = Inr s"
| "as_str field _ = Inl (Untyped field)"




subsection \<open>\<^verbatim>\<open>PromptEntry.from_yaml\<close>, \<^verbatim>\<open>StarterKit.from_yaml\<close>, \<^verbatim>\<open>InstructionEntry.from_path\<close>\<close>



text \<open>
  The header of an instruction file, as \<^verbatim>\<open>from_path\<close> reads it: the name and the
  description start empty and are taken from the front matter when the text begins with
  the marker. \<open>safe_load\<close> is \<^verbatim>\<open>yaml.safe_load\<close> on a text.
\<close>

definition read_frontmatter ::
  "(string \<Rightarrow> exn + pyobj) \<Rightarrow> string \<Rightarrow> exn + (pyobj \<times> pyobj)" where
  "read_frontmatter safe_load text =
     (if prefix ''---'' text then
        and_then (str_index text ''---'' 3) (\<lambda>end.
        and_then (safe_load (take (end - 3) (drop 3 text))) (\<lambda>fm.
          if truthy fm then
            and_then (py_get fm ''name'' (PStr [])) (\<lambda>name.
            and_then (py_get fm ''description'' (PStr [])) (\<lambda>description.
              Inr (name, description)))
          else Inr (PStr [], PStr [])))
      else Inr (PStr [], PStr []))"

definition InstructionEntry_from_path ::
  "(string \<Rightarrow> exn + pyobj) \<Rightarrow> string \<Rightarrow> string \<Rightarrow> text_file \<Rightarrow> exn + InstructionEntry" where
  "InstructionEntry_from_path safe_load scope path f =
     (case f of
        Undecodable \<Rightarrow> Inl ReadError
      | Text text \<Rightarrow>
          and_then (read_frontmatter safe_load text) (\<lambda>(name, description).
          and_then (as_str ''name'' (if truthy name then name else PStr (path_stem path)))
            (\<lambda>a_name.
          and_then (as_str ''description'' description) (\<lambda>a_description.
            Inr \<lparr>i_stem = path_stem path, i_scope = scope, i_file_path = path,
              i_name = a_name, i_description = a_description\<rparr>))))"

subsection \<open>\<^verbatim>\<open>Catalog.load\<close>\<close>








section \<open>The validator: \<^verbatim>\<open>validator.py\<close>\<close>

subsection \<open>More of Python\<close>

text \<open>\<^verbatim>\<open>a == b\<close> on these objects: \<^verbatim>\<open>True\<close> and \<^verbatim>\<open>False\<close> are the integers 1 and 0, lists are
  compared by position, dictionaries by key.\<close>

fun py_eq :: "pyobj \<Rightarrow> pyobj \<Rightarrow> bool" where
  "py_eq PNone PNone = True"
| "py_eq (PBool a) (PBool b) = (a = b)"
| "py_eq (PBool a) (PInt j) = (j = (if a then 1 else 0))"
| "py_eq (PInt i) (PBool b) = (i = (if b then 1 else 0))"
| "py_eq (PInt i) (PInt j) = (i = j)"
| "py_eq (PStr s) (PStr t) = (s = t)"
| "py_eq (PList xs) (PList ys) = list_all2 py_eq xs ys"
| "py_eq (PDict xs) (PDict ys) =
     (length xs = length ys \<and>
      list_all (\<lambda>kv. list_ex (\<lambda>kv'. py_eq (fst kv) (fst kv') \<and> py_eq (snd kv) (snd kv')) ys) xs)"
| "py_eq _ _ = False"









text \<open>\<^verbatim>\<open>for x in obj\<close>, \<^verbatim>\<open>len(obj)\<close>, \<^verbatim>\<open>hash(x)\<close> and \<^verbatim>\<open>x in obj\<close>.\<close>

fun py_iter :: "pyobj \<Rightarrow> exn + pyobj list" where
  "py_iter (PList xs) = Inr xs"
| "py_iter (PDict kvs) = Inr (map fst kvs)"
| "py_iter (PStr s) = Inr (map (\<lambda>c. PStr [c]) s)"
| "py_iter _ = Inl TypeError"


fun hashable :: "pyobj \<Rightarrow> bool" where
  "hashable (PList xs) = False"
| "hashable (PDict kvs) = False"
| "hashable _ = True"

fun py_contains :: "pyobj \<Rightarrow> pyobj \<Rightarrow> exn + bool" where
  "py_contains (PList xs) x = Inr (list_ex (py_eq x) xs)"
| "py_contains (PDict kvs) x =
     (if hashable x then Inr (list_ex (py_eq x) (map fst kvs)) else Inl TypeError)"
| "py_contains (PStr s) x = (case x of PStr u \<Rightarrow> Inr (sublist u s) | _ \<Rightarrow> Inl TypeError)"
| "py_contains _ x = Inl TypeError"

fun is_str :: "pyobj \<Rightarrow> bool" where
  "is_str (PStr s) = True"
| "is_str _ = False"

fun the_str :: "pyobj \<Rightarrow> string" where
  "the_str (PStr s) = s"
| "the_str _ = []"

text \<open>\<^verbatim>\<open>', '.join(sorted(xs))\<close> for the elements of a set: with an element that is no \<^verbatim>\<open>str\<close>
  either the sorting or the joining raises \<^verbatim>\<open>TypeError\<close>.\<close>

definition join_sorted :: "pyobj list \<Rightarrow> exn + string" where
  "join_sorted xs =
     (if list_all is_str xs then Inr (join '', '' (sort (remdups (map the_str xs))))
      else Inl TypeError)"

subsection \<open>Issues and results\<close>

text \<open>The field \<^verbatim>\<open>file\<close> of an issue is \<open>issue_file\<close> here, \<open>file\<close> being a keyword.\<close>

record Issue =
  issue_file :: string
  message :: string
  severity :: string

record ValidationResult =
  issues :: "Issue list"
  files_checked :: nat
  files_passed :: nat

definition new_result :: ValidationResult where
  "new_result = \<lparr>issues = [], files_checked = 0, files_passed = 0\<rparr>"

definition ok :: "ValidationResult \<Rightarrow> bool" where
  "ok self = (\<not> list_ex (\<lambda>i. severity i = ''error'') (issues self))"

definition error_count :: "ValidationResult \<Rightarrow> nat" where
  "error_count self = length (filter (\<lambda>i. severity i = ''error'') (issues self))"

definition warning_count :: "ValidationResult \<Rightarrow> nat" where
  "warning_count self = length (filter (\<lambda>i. severity i = ''warning'') (issues self))"

text \<open>\<^verbatim>\<open>result.issues.append(Issue(file, message, severity))\<close>.\<close>

definition append_issue ::
  "ValidationResult \<Rightarrow> string \<Rightarrow> string \<Rightarrow> string \<Rightarrow> ValidationResult" where
  "append_issue result f m sev =
     result\<lparr>issues := issues result @ [\<lparr>issue_file = f, message = m, severity = sev\<rparr>]\<rparr>"

subsection \<open>\<^verbatim>\<open>validate_prompts\<close> and \<^verbatim>\<open>_check_prompt_extras\<close>\<close>

text \<open>The set comprehension \<^verbatim>\<open>{v["name"] for v in variables}\<close>: each element is
  subscripted and hashed in turn.\<close>

fun collect_names :: "pyobj list \<Rightarrow> exn + pyobj list" where
  "collect_names [] = Inr []"
| "collect_names (v # vs) =
     and_then (py_subscript v ''name'') (\<lambda>n.
       if hashable n then and_then (collect_names vs) (\<lambda>ns. Inr (n # ns))
       else Inl TypeError)"

definition check_prompt_extras ::
  "pyobj \<Rightarrow> string \<Rightarrow> ValidationResult \<Rightarrow> exn + ValidationResult" where
  "check_prompt_extras data rel_path result =
     and_then (py_get data ''prompt'' (PStr [])) (\<lambda>prompt_text.
     and_then (py_get data ''variables'' (PList [])) (\<lambda>variables.
     and_then (case prompt_text of PStr s \<Rightarrow> Inr (findall_placeholders s) | _ \<Rightarrow> Inl TypeError)
       (\<lambda>used_vars.
     and_then (and_then (py_iter variables) collect_names) (\<lambda>defined_vars.
       let undefined = filter (\<lambda>u. \<not> list_ex (py_eq (PStr u)) defined_vars) used_vars;
           result1 =
             (if undefined \<noteq> []
              then append_issue result rel_path
                     (''Variables used in prompt but not defined: ''
                        @ join '', '' (sort (remdups undefined))) ''warning''
              else result);
           unused = filter (\<lambda>d. \<not> list_ex (\<lambda>u. py_eq d (PStr u)) used_vars) defined_vars
       in
     and_then
       (if unused \<noteq> []
        then and_then (join_sorted unused) (\<lambda>names.
               Inr (append_issue result1 rel_path
                      (''Variables defined but not used in prompt: '' @ names) ''warning''))
        else Inr result1) (\<lambda>result2.
     and_then (py_get data ''id'' (PStr [])) (\<lambda>prompt_id.
     and_then (py_get data ''related_prompts'' (PList [])) (\<lambda>related.
     and_then (py_contains related prompt_id) (\<lambda>self_reference.
       Inr (if self_reference
            then append_issue result2 rel_path ''Prompt references itself in related_prompts''
                   ''warning''
            else result2)))))))))"

text \<open>
  \<open>iter_errors schema data\<close> stands for \<^verbatim>\<open>list(Draft7Validator(schema).iter_errors(data))\<close>
  of the \<^verbatim>\<open>jsonschema\<close> library: for each violation the elements of its path, as strings,
  and its message.
\<close>

definition schema_path :: "string list \<Rightarrow> string" where
  "schema_path ps = (let path = join ''.'' ps in if path = [] then ''(root)'' else path)"

definition validate_prompt_file ::
  "(pyobj \<Rightarrow> pyobj \<Rightarrow> exn + (string list \<times> string) list) \<Rightarrow> pyobj \<Rightarrow> string
   \<Rightarrow> ValidationResult \<Rightarrow> string \<times> yaml_file \<Rightarrow> exn + ValidationResult" where
  "validate_prompt_file iter_errors schema dir_name result0 nf =
     (let result = result0\<lparr>files_checked := files_checked result0 + 1\<rparr>;
          rel_path = ''prompts/'' @ dir_name @ ''/'' @ fst nf
      in case snd nf of
           Unreadable \<Rightarrow> Inl ReadError
         | Malformed m \<Rightarrow> Inr (append_issue result rel_path (''YAML parse error: '' @ m) ''error'')
         | Document data \<Rightarrow>
             (case data of
                PDict d \<Rightarrow>
                  and_then (iter_errors schema data) (\<lambda>errors.
                    check_prompt_extras data rel_path
                      (if errors \<noteq> []
                       then foldl (\<lambda>r err. append_issue r rel_path
                                     (schema_path (fst err) @ '': '' @ snd err) ''error'')
                              result errors
                       else result\<lparr>files_passed := files_passed result + 1\<rparr>))
              | _ \<Rightarrow> Inr (append_issue result rel_path ''File does not contain a YAML mapping''
                           ''error'')))"

definition validate_prompts ::
  "(pyobj \<Rightarrow> pyobj \<Rightarrow> exn + (string list \<times> string) list) \<Rightarrow> tree \<Rightarrow> exn + ValidationResult"
  where
  "validate_prompts iter_errors t =
     (case schema_file t of
        None \<Rightarrow> Inr (append_issue new_result ''schema/prompt.schema.json''
                      ''Schema file not found'' ''error'')
      | Some Unreadable \<Rightarrow> Inl ReadError
      | Some (Malformed m) \<Rightarrow> Inl (JSONDecodeError m)
      | Some (Document schema) \<Rightarrow>
          if \<not> truthy schema
          then Inr (append_issue new_result ''schema/prompt.schema.json''
                      ''Schema file not found'' ''error'')
          else fold_exn (\<lambda>result dir_name.
                   case prompt_dir t dir_name of
                     None \<Rightarrow> Inr result
                   | Some entries \<Rightarrow>
                       fold_exn (validate_prompt_file iter_errors schema dir_name) result
                         (glob ''.yaml'' entries))
                 new_result PROMPT_DIRS)"

subsection \<open>\<^verbatim>\<open>validate_index\<close>\<close>






subsection \<open>\<^verbatim>\<open>validate_instructions\<close>\<close>

definition short_body_message :: string where
  "short_body_message = ''Instruction body is too short (< 50 chars)''"

text \<open>\<^verbatim>\<open>str(e)\<close> of the exceptions that the front matter can raise and the validator
  catches; \<open>None\<close> for one it does not catch.\<close>

fun caught_frontmatter :: "exn \<Rightarrow> string option" where
  "caught_frontmatter (ValueError m) = Some m"
| "caught_frontmatter (YAMLError m) = Some m"
| "caught_frontmatter _ = None"

definition has_key :: "pyobj \<Rightarrow> string \<Rightarrow> bool" where
  "has_key fm k = (case fm of PDict d \<Rightarrow> dict_get d k \<noteq> None | _ \<Rightarrow> False)"

fun is_dict :: "pyobj \<Rightarrow> bool" where
  "is_dict (PDict d) = True"
| "is_dict _ = False"

text \<open>The checks on a file whose front matter \<open>fm\<close> ends at \<open>end\<close>.\<close>

definition check_instruction ::
  "string \<Rightarrow> string \<Rightarrow> nat \<Rightarrow> pyobj \<Rightarrow> ValidationResult \<Rightarrow> ValidationResult" where
  "check_instruction rel_path text end fm result =
     (if \<not> truthy fm \<or> \<not> is_dict fm
      then append_issue result rel_path ''Frontmatter is empty or not a mapping'' ''error''
      else
        let result1 = (if \<not> has_key fm ''name''
                       then append_issue result rel_path ''Frontmatter missing 'name' field''
                              ''error''
                       else result);
            result2 = (if \<not> has_key fm ''description''
                       then append_issue result1 rel_path
                              ''Frontmatter missing 'description' field'' ''warning''
                       else result1);
            body = strip (drop (end + 3) text);
            result3 = (if length body < 50
                       then append_issue result2 rel_path short_body_message ''warning''
                       else result2)
        in if \<not> list_ex (\<lambda>i. issue_file i = rel_path \<and> severity i = ''error'') (issues result3)
           then result3\<lparr>files_passed := files_passed result3 + 1\<rparr>
           else result3)"

definition validate_instruction_file ::
  "(string \<Rightarrow> exn + pyobj) \<Rightarrow> string \<Rightarrow> ValidationResult \<Rightarrow> string \<times> text_file
   \<Rightarrow> exn + ValidationResult" where
  "validate_instruction_file safe_load scope result0 nf =
     (let result = result0\<lparr>files_checked := files_checked result0 + 1\<rparr>;
          rel_path = ''instructions/'' @ scope @ ''/'' @ fst nf
      in case snd nf of
           Undecodable \<Rightarrow> Inl ReadError
         | Text text \<Rightarrow>
             if \<not> prefix ''---'' text
             then Inr (append_issue result rel_path
                         ''Missing YAML frontmatter (must start with ---)'' ''error'')
             else
               (case and_then (str_index text ''---'' 3) (\<lambda>end.
                       and_then (safe_load (take (end - 3) (drop 3 text))) (\<lambda>fm.
                         Inr (end, fm))) of
                  Inl e \<Rightarrow>
                    (case caught_frontmatter e of
                       Some m \<Rightarrow> Inr (append_issue result rel_path
                                        (''Invalid frontmatter: '' @ m) ''error'')
                     | None \<Rightarrow> Inl e)
                | Inr (end, fm) \<Rightarrow> Inr (check_instruction rel_path text end fm result)))"

definition validate_instructions ::
  "(string \<Rightarrow> exn + pyobj) \<Rightarrow> tree \<Rightarrow> exn + ValidationResult" where
  "validate_instructions safe_load t =
     fold_exn (\<lambda>result scope.
         case instruction_dir t scope of
           None \<Rightarrow> Inr result
         | Some entries \<Rightarrow>
             fold_exn (validate_instruction_file safe_load scope) result
               (glob ''.instructions.md'' entries))
       new_result INSTRUCTION_SCOPES"

section \<open>What the specification says, in its own words\<close>

text \<open>Unique names in first-occurrence order: a name stays where it is first met, and its
  later occurrences go.\<close>

fun first_occurrences :: "'a list \<Rightarrow> 'a list" where
  "first_occurrences [] = []"
| "first_occurrences (x # xs) = x # filter (\<lambda>y. y \<noteq> x) (first_occurrences xs)"

text \<open>The character class \<^verbatim>\<open>[A-Za-z0-9_]\<close> that the specification gives for a name.\<close>

definition is_ident_char :: "char \<Rightarrow> bool" where
  "is_ident_char c =
     (let n = (of_char c :: nat) in
        (48 \<le> n \<and> n \<le> 57) \<or> (65 \<le> n \<and> n \<le> 90) \<or> n = 95 \<or> (97 \<le> n \<and> n \<le> 122))"

text \<open>The four-point ordinal scale: beginner, intermediate, advanced, expert.\<close>

definition skill_rank :: "string \<Rightarrow> nat" where
  "skill_rank s =
     (if s = ''beginner'' then 0 else if s = ''intermediate'' then 1
      else if s = ''advanced'' then 2 else 3)"

text \<open>A call of \<^verbatim>\<open>filter_prompts\<close> with \<^verbatim>\<open>skill_level\<close> alone.\<close>

definition max_skill :: "string \<Rightarrow> criteria" where
  "max_skill lvl = \<lparr>category = None, subcategory = None, skill_level = Some lvl,
     platform = None, tag = None, query = None\<rparr>"


text \<open>
  The entries that loading parses, in the order of the scan: for each file the key and
  the record it yields, nothing for a file that is skipped or raises. \<open>upd_all\<close> stores
  a list of entries one after the other.
\<close>

definition upd_all :: "('k \<times> 'v) list \<Rightarrow> ('k \<times> 'v) list \<Rightarrow> ('k \<times> 'v) list" where
  "upd_all d kvs = foldl (\<lambda>d kv. AList.update (fst kv) (snd kv) d) d kvs"










section \<open>Example data\<close>

text \<open>A prompt with an identifier and a template, the other fields as \<^verbatim>\<open>from_yaml\<close>
  defaults them.\<close>

definition example_prompt :: "string \<Rightarrow> string \<Rightarrow> PromptEntry" where
  "example_prompt i t = \<lparr>p_id = i, p_version = ''1.0.0'', p_title = i, p_description = [],
     p_category = [], p_subcategory = [], p_skill_level = ''intermediate'', p_platforms = [],
     p_tags = [], p_prompt_text = t, p_variables = [], p_expected_output = [],
     p_quality_criteria = [], p_anti_patterns = [], p_adversarial_tests = [],
     p_related_prompts = [], p_chain_position = [], p_file_path = [], p_raw = PNone\<rparr>"



text \<open>A kit that names a prompt of the catalog and one that is not there.\<close>

definition kit_catalog :: Catalog where
  "kit_catalog = \<lparr>root = ''/c'',
     prompts = [(''valid'', example_prompt ''valid'' ''Do {{x}}'')],
     instructions = [],
     starter_kits = [(''kit'', \<lparr>k_id = ''kit'', k_name = ''Kit'', k_description = [],
        k_target_audience = [], k_prompts = [''valid'', ''ghost''],
        k_instructions = [''guardrails/none''], k_tags = [], k_raw = PNone\<rparr>)]\<rparr>"

definition skilled_prompt :: "string \<Rightarrow> PromptEntry" where
  "skilled_prompt lvl = (example_prompt lvl [])\<lparr>p_skill_level := lvl\<rparr>"

text \<open>One prompt of each skill level.\<close>

definition skill_catalog :: Catalog where
  "skill_catalog = \<lparr>root = ''/c'',
     prompts = [(''expert'', skilled_prompt ''expert''), (''beginner'', skilled_prompt ''beginner''),
       (''advanced'', skilled_prompt ''advanced''),
       (''intermediate'', skilled_prompt ''intermediate'')],
     instructions = [], starter_kits = []\<rparr>"

text \<open>A stand-in for \<^verbatim>\<open>yaml.safe_load\<close> that knows one front matter.\<close>

definition example_safe_load :: "string \<Rightarrow> exn + pyobj" where
  "example_safe_load s =
     (if s = ''name: Test'' then Inr (PDict [(PStr ''name'', PStr ''Test'')])
      else Inl (YAMLError ''not a known text''))"



text \<open>Two prompt documents that the schema would reject, a schema, and a catalog with
  one prompt file.\<close>

definition bad_variables_doc :: pyobj where
  "bad_variables_doc = PDict [(PStr ''id'', PStr ''bad''), (PStr ''prompt'', PStr ''Do {{x}}''),
     (PStr ''variables'', PList [PDict [(PStr ''description'', PStr ''no name'')]])]"

definition bad_prompt_doc :: pyobj where
  "bad_prompt_doc = PDict [(PStr ''id'', PStr ''bad''), (PStr ''prompt'', PInt 5)]"

definition object_schema :: pyobj where
  "object_schema = PDict [(PStr ''type'', PStr ''object'')]"

definition one_prompt_tree :: "pyobj \<Rightarrow> tree" where
  "one_prompt_tree doc = \<lparr>root_path = ''/c'', schema_file = Some (Document object_schema),
     index_file = None,
     prompt_dir = (\<lambda>d. if d = ''planning'' then Some [(''bad.yaml'', Document doc)] else None),
     instruction_dir = (\<lambda>s. None), kits_dir = None, path_exists = (\<lambda>p. False)\<rparr>"

text \<open>A catalog with one instruction file, and a body of 50 characters.\<close>

definition one_instruction_tree :: "string \<Rightarrow> string \<Rightarrow> string \<Rightarrow> tree" where
  "one_instruction_tree scope name text = \<lparr>root_path = ''/c'', schema_file = None,
     index_file = None, prompt_dir = (\<lambda>d. None),
     instruction_dir = (\<lambda>s. if s = scope then Some [(name, Text text)] else None),
     kits_dir = None, path_exists = (\<lambda>p. False)\<rparr>"

definition fifty :: string where
  "fifty = ''This body is fifty characters long, not one more..''"




section \<open>Proofs\<close>

subsection \<open>Strings and placeholders\<close>

lemma placeholder_not_Nil [simp]: "placeholder k \<noteq> []"
  by (simp add: placeholder_def)

lemma length_placeholder: "length (placeholder k) = length k + 4"
  by (simp add: placeholder_def)

lemma not_word_brace [simp]: "\<not> is_word CHR ''}''" "\<not> is_word CHR ''{''"
  by (simp_all add: is_word_def)

lemma match_placeholder_Some:
  assumes "match_placeholder s = Some (n, rest)"
  shows "s = placeholder n @ rest" and "n \<noteq> []" and "list_all is_word n"
proof -
  let ?body = "drop 2 s"
  from assms have p: "prefix ''{{'' s" and n: "n = takeWhile is_word ?body"
    and r: "rest = drop 2 (dropWhile is_word ?body)"
    and q: "prefix ''}}'' (dropWhile is_word ?body)"
    and ne: "takeWhile is_word ?body \<noteq> []"
    by (auto simp: match_placeholder_def Let_def split: if_splits)
  from p have "s = ''{{'' @ ?body" by (auto simp: prefix_def)
  moreover have "?body = n @ dropWhile is_word ?body" by (simp add: n)
  moreover from q have "dropWhile is_word ?body = ''}}'' @ rest" by (auto simp: prefix_def r)
  ultimately show "s = placeholder n @ rest" by (simp add: placeholder_def)
  show "n \<noteq> []" using n ne by simp
  show "list_all is_word n" unfolding n list_all_iff by (auto dest: set_takeWhileD)
qed

lemma match_placeholder_here:
  assumes "n \<noteq> []" and "list_all is_word n"
  shows "match_placeholder (placeholder n @ post) = Some (n, post)"
proof -
  have "takeWhile is_word (n @ ''}}'' @ post) = n"
    using assms(2) by (simp add: list_all_iff)
  moreover have "dropWhile is_word (n @ ''}}'' @ post) = ''}}'' @ post"
    using assms(2) by (simp add: list_all_iff)
  ultimately show ?thesis
    using assms(1) by (simp add: match_placeholder_def placeholder_def)
qed

text \<open>No placeholder begins inside a matched one, after its first character.\<close>

lemma inside_placeholder:
  assumes w: "list_all is_word m" and k: "0 < k" "k < length m + 4"
  shows "\<not> prefix ''{{'' (drop k (placeholder m @ rest))"
proof (cases "k = 1")
  case True
  have "drop 1 (placeholder m @ rest) = CHR ''{'' # m @ ''}}'' @ rest"
    by (simp add: placeholder_def)
  moreover have "\<not> prefix ''{'' (m @ ''}}'' @ rest)"
    using w by (cases m) auto
  ultimately show ?thesis using True by simp
next
  case False
  define j where "j = k - 2"
  define u where "u = m @ ''}}''"
  from k False have j: "j < length u" and kj: "k = Suc (Suc j)"
    by (auto simp: j_def u_def)
  have "placeholder m @ rest = CHR ''{'' # CHR ''{'' # u @ rest"
    by (simp add: placeholder_def u_def)
  then have "drop k (placeholder m @ rest) = drop j u @ rest"
    using j by (simp add: kj)
  moreover from j obtain x xs where x: "drop j u = x # xs"
    by (cases "drop j u") auto
  moreover have "x \<in> set (drop j u)"
    using x by simp
  then have "x \<in> set u"
    by (rule in_set_dropD)
  then have "x \<noteq> CHR ''{''"
    using w by (auto simp: list_all_iff u_def)
  ultimately show ?thesis by simp
qed

lemma findall_sound:
  "n \<in> set (findall_placeholders s) \<Longrightarrow> n \<noteq> [] \<and> list_all is_word n \<and> sublist (placeholder n) s"
proof (induction s rule: findall_placeholders.induct)
  case 1
  then show ?case by simp
next
  case (2 c cs)
  show ?case
  proof (cases "match_placeholder (c # cs)")
    case None
    from "2.prems" None have "n \<in> set (findall_placeholders cs)" by simp
    from "2.IH"(1) [OF None this]
    show ?thesis by (simp add: sublist_Cons_right)
  next
    case (Some a)
    obtain m rest where a: "a = (m, rest)" by (cases a)
    note ms = match_placeholder_Some [OF Some [unfolded a]]
    from "2.prems" Some a have "n = m \<or> n \<in> set (findall_placeholders rest)" by simp
    then show ?thesis
    proof
      assume "n = m"
      moreover have "sublist (placeholder m) (placeholder m @ rest)"
        by (rule sublist_append_rightI)
      ultimately show ?thesis using ms by simp
    next
      assume "n \<in> set (findall_placeholders rest)"
      from "2.IH"(2) [OF Some a [symmetric] this]
      have i: "n \<noteq> []" "list_all is_word n" "sublist (placeholder n) rest"
        by simp_all
      from i(3) obtain ps ss where "rest = ps @ placeholder n @ ss"
        by (auto simp: sublist_def)
      then have "c # cs = (placeholder m @ ps) @ placeholder n @ ss"
        using ms(1) by simp
      then have "sublist (placeholder n) (c # cs)"
        unfolding sublist_def by blast
      with i show ?thesis by simp
    qed
  qed
qed

lemma findall_complete:
  assumes n: "n \<noteq> []" "list_all is_word n"
  shows "s = pre @ placeholder n @ post \<Longrightarrow> n \<in> set (findall_placeholders s)"
proof (induction s arbitrary: pre rule: findall_placeholders.induct)
  case 1
  then show ?case by (simp add: placeholder_def)
next
  case (2 c cs)
  show ?case
  proof (cases "match_placeholder (c # cs)")
    case None
    have "pre \<noteq> []"
    proof
      assume "pre = []"
      with "2.prems" None match_placeholder_here [OF n, of post] show False by simp
    qed
    then obtain pre' where "pre = c # pre'" and "cs = pre' @ placeholder n @ post"
      using "2.prems" by (cases pre) auto
    with "2.IH"(1) [OF None] None show ?thesis by simp
  next
    case (Some a)
    obtain m rest where a: "a = (m, rest)" by (cases a)
    note ms = match_placeholder_Some [OF Some [unfolded a]]
    have fa: "findall_placeholders (c # cs) = m # findall_placeholders rest"
      using Some a by simp
    show ?thesis
    proof (cases "pre = []")
      case True
      with "2.prems" have "match_placeholder (c # cs) = Some (n, post)"
        using match_placeholder_here [OF n, of post] by simp
      with Some a have "n = m" by simp
      then show ?thesis by (simp only: fa) simp
    next
      case False
      have "prefix ''{{'' (drop (length pre) (placeholder m @ rest))"
        using "2.prems" ms(1) by (simp add: placeholder_def)
      with inside_placeholder [OF ms(3), of "length pre" rest] False
      have len: "length m + 4 \<le> length pre" by (cases "length pre < length m + 4") auto
      note lp = length_placeholder [of m]
      have "rest = drop (length (placeholder m)) (placeholder m @ rest)"
        by simp
      then have "rest = drop (length m + 4) (c # cs)"
        by (simp only: lp ms(1) [symmetric])
      also have "\<dots> = drop (length m + 4) pre @ placeholder n @ post"
        using "2.prems" len by simp
      finally have "n \<in> set (findall_placeholders rest)"
        by (rule "2.IH"(2) [OF Some a [symmetric]])
      then show ?thesis by (simp only: fa) simp
    qed
  qed
qed

lemma set_findall_placeholders:
  "set (findall_placeholders s) = {n. n \<noteq> [] \<and> list_all is_word n \<and> sublist (placeholder n) s}"
proof (intro set_eqI iffI)
  fix n assume "n \<in> set (findall_placeholders s)"
  then show "n \<in> {n. n \<noteq> [] \<and> list_all is_word n \<and> sublist (placeholder n) s}"
    using findall_sound by simp
next
  fix n assume "n \<in> {n. n \<noteq> [] \<and> list_all is_word n \<and> sublist (placeholder n) s}"
  then obtain pre post where "n \<noteq> []" "list_all is_word n" "s = pre @ placeholder n @ post"
    by (auto simp: sublist_def)
  then show "n \<in> set (findall_placeholders s)"
    by (rule findall_complete)
qed

subsection \<open>Keys in insertion order\<close>

lemma set_first_occurrences: "set (first_occurrences xs) = set xs"
  by (induction xs) auto

lemma distinct_first_occurrences: "distinct (first_occurrences xs)"
  by (induction xs) auto

lemma fromkeys_fold:
  "map fst (foldl (\<lambda>d k. AList.update k () d) d xs) =
   map fst d @ filter (\<lambda>y. y \<notin> fst ` set d) (first_occurrences xs)"
proof (induction xs arbitrary: d)
  case Nil
  then show ?case by simp
next
  case (Cons x xs)
  have f: "filter (\<lambda>y. y \<notin> insert x (fst ` set d)) zs =
           filter (\<lambda>y. y \<notin> fst ` set d) (filter (\<lambda>y. y \<noteq> x) zs)" for zs
    by (induction zs) auto
  have "set (map fst (AList.update x () d)) = insert x (set (map fst d))"
    by (subst update_keys) auto
  then have k: "fst ` set (AList.update x () d) = insert x (fst ` set d)"
    by simp
  show ?case
  proof (cases "x \<in> fst ` set d")
    case True
    have "map fst (AList.update x () d) = map fst d"
      using True by (simp add: update_keys)
    then have "map fst (foldl (\<lambda>d k. AList.update k () d) d (x # xs)) =
               map fst d @ filter (\<lambda>y. y \<notin> insert x (fst ` set d)) (first_occurrences xs)"
      using k by (simp add: Cons.IH)
    also have "\<dots> = map fst d @ filter (\<lambda>y. y \<notin> fst ` set d) (first_occurrences (x # xs))"
      using True by (simp only: f first_occurrences.simps filter.simps) simp
    finally show ?thesis .
  next
    case False
    have "map fst (AList.update x () d) = map fst d @ [x]"
      using False by (simp add: update_keys)
    then have "map fst (foldl (\<lambda>d k. AList.update k () d) d (x # xs)) =
               map fst d @ x # filter (\<lambda>y. y \<notin> insert x (fst ` set d)) (first_occurrences xs)"
      using k by (simp add: Cons.IH)
    also have "\<dots> = map fst d @ filter (\<lambda>y. y \<notin> fst ` set d) (first_occurrences (x # xs))"
      using False by (simp only: f first_occurrences.simps filter.simps) simp
    finally show ?thesis .
  qed
qed

lemma fromkeys_first_occurrences: "fromkeys xs = first_occurrences xs"
  by (simp add: fromkeys_def fromkeys_fold)

subsection \<open>\<^verbatim>\<open>str.replace\<close>\<close>

lemma str_replace_absent:
  "old \<noteq> [] \<Longrightarrow> \<not> sublist old s \<Longrightarrow> str_replace old new s = s"
  by (induction s) (auto simp: sublist_Cons_right)

lemma str_replace_skip:
  "old \<noteq> [] \<Longrightarrow> \<forall>i<length u. \<not> prefix old (drop i (u @ b)) \<Longrightarrow>
   str_replace old new (u @ b) = u @ str_replace old new b"
proof (induction u)
  case Nil
  then show ?case by simp
next
  case (Cons x u)
  from Cons.prems(2) have "\<not> prefix old (drop 0 ((x # u) @ b))" by blast
  then have h: "\<not> prefix old (x # u @ b)" by simp
  have "\<forall>i<length u. \<not> prefix old (drop i (u @ b))"
  proof (intro allI impI)
    fix i assume "i < length u"
    then have "Suc i < length (x # u)" by simp
    with Cons.prems(2) have "\<not> prefix old (drop (Suc i) ((x # u) @ b))" by blast
    then show "\<not> prefix old (drop i (u @ b))" by simp
  qed
  with Cons.IH Cons.prems(1) have "str_replace old new (u @ b) = u @ str_replace old new b"
    by simp
  with h Cons.prems(1) show ?case by simp
qed

lemma str_replace_first:
  assumes "old \<noteq> []" and "\<forall>i<length a. \<not> prefix old (drop i (a @ old @ b))"
  shows "str_replace old new (a @ old @ b) = a @ new @ str_replace old new b"
proof -
  have "str_replace old new (old @ b) = new @ str_replace old new b"
    using assms(1) by (cases old) simp_all
  with str_replace_skip [OF assms(1), of a "old @ b" new] assms(2) show ?thesis
    by simp
qed

text \<open>A placeholder of another name never begins where one of a name does.\<close>

lemma placeholder_apart:
  assumes k: "k \<noteq> []" "list_all is_word k" and y: "y \<noteq> []" "list_all is_word y"
    and ne: "k \<noteq> y" and i: "i < length (placeholder y)"
  shows "\<not> prefix (placeholder k) (drop i (placeholder y @ post))"
proof
  assume p: "prefix (placeholder k) (drop i (placeholder y @ post))"
  then have b: "prefix ''{{'' (drop i (placeholder y @ post))"
    by (auto simp: prefix_def placeholder_def)
  have "i = 0"
    using inside_placeholder [OF y(2), of i post] b i by (cases "i = 0") (auto simp: placeholder_def)
  with p obtain rest where "placeholder y @ post = placeholder k @ rest"
    by (auto simp: prefix_def)
  with match_placeholder_here [OF y, of post] match_placeholder_here [OF k, of rest]
  show False using ne by simp
qed

lemma str_replace_keeps:
  assumes k: "k \<noteq> []" "list_all is_word k" and y: "y \<noteq> []" "list_all is_word y"
    and ne: "k \<noteq> y"
  shows "s = pre @ placeholder y @ post \<Longrightarrow>
         sublist (placeholder y) (str_replace (placeholder k) v s)"
proof (induction "placeholder k" v s arbitrary: pre rule: str_replace.induct)
  case (1 new)
  then show ?case by (simp add: placeholder_def)
next
  case (2 new c cs)
  show ?case
  proof (cases "pre = []")
    case True
    have "str_replace (placeholder k) new (placeholder y @ post) =
          placeholder y @ str_replace (placeholder k) new post"
      using placeholder_apart [OF k y ne] by (intro str_replace_skip) auto
    with True "2.prems" show ?thesis by simp
  next
    case False
    show ?thesis
    proof (cases "prefix (placeholder k) (c # cs)")
      case np: False
      from False "2.prems" obtain pre' where "cs = pre' @ placeholder y @ post"
        by (cases pre) auto
      from "2.hyps"(3) [OF _ np this] have "sublist (placeholder y) (str_replace (placeholder k) new cs)"
        by simp
      with np show ?thesis by (simp add: sublist_Cons_right)
    next
      case True
      then obtain rest where r: "c # cs = placeholder k @ rest"
        by (auto simp: prefix_def)
      have "prefix ''{{'' (drop (length pre) (placeholder k @ rest))"
        using "2.prems" r by (simp add: placeholder_def)
      with inside_placeholder [OF k(2), of "length pre" rest] False
      have len: "length k + 4 \<le> length pre" by (cases "length pre < length k + 4") auto
      note lp = length_placeholder [of k]
      have "drop (length (placeholder k)) (c # cs) =
            drop (length (placeholder k)) pre @ placeholder y @ post"
        using "2.prems" len lp by simp
      from "2.hyps"(2) [OF _ True this]
      have "sublist (placeholder y)
              (str_replace (placeholder k) new (drop (length (placeholder k)) (c # cs)))"
        by simp
      then have "sublist (placeholder y)
              (new @ str_replace (placeholder k) new (drop (length (placeholder k)) (c # cs)))"
        by (auto simp: sublist_append)
      with True show ?thesis by simp
    qed
  qed
qed

subsection \<open>The chain walk\<close>






subsection \<open>Filtering and kits\<close>

lemma resolved_list:
  "map Some (map (\<lambda>k. the (map_of d k)) (filter (\<lambda>k. map_of d k \<noteq> None) ks)) =
   filter (\<lambda>r. r \<noteq> None) (map (map_of d) ks)"
  by (induction ks) auto

lemma list_index_SKILL_ORDER:
  "s \<in> set SKILL_ORDER \<Longrightarrow> list_index SKILL_ORDER s = Inr (skill_rank s)"
  by (auto simp: SKILL_ORDER_def skill_rank_def)

lemma keeps_max_skill:
  assumes "p_skill_level p \<in> set SKILL_ORDER" and "lvl \<in> set SKILL_ORDER"
  shows "keeps (max_skill lvl) p = Inr (skill_rank (p_skill_level p) \<le> skill_rank lvl)"
proof -
  have "lvl \<noteq> []" using assms(2) by (auto simp: SKILL_ORDER_def)
  then show ?thesis
    using assms
    by (simp add: keeps_def max_skill_def given_def above_skill_def list_index_SKILL_ORDER
        not_less split: bool.splits)
qed

lemma filter_loop_max_skill:
  assumes "\<forall>p \<in> set ps. p_skill_level p \<in> set SKILL_ORDER" and "lvl \<in> set SKILL_ORDER"
  shows "filter_loop (max_skill lvl) results ps =
         Inr (results @ filter (\<lambda>p. skill_rank (p_skill_level p) \<le> skill_rank lvl) ps)"
  using assms
  by (induction ps arbitrary: results) (simp_all add: keeps_max_skill)

subsection \<open>Claims on the catalog\<close>




text \<open>
  C4. \<^verbatim>\<open>resolve_kit\<close> raises exactly when the kit identifier is not a key of the starter-kit
  map. Otherwise it returns two lists: the records that the lookups of the kit's prompt
  references and of its instruction references find, in the order of the references,
  the references without a record being left out.
\<close>

theorem resolve_kit_lenient:
  "(isl (resolve_kit cat kid) \<longleftrightarrow> map_of (starter_kits cat) kid = None) \<and>
   (\<forall>kit. map_of (starter_kits cat) kid = Some kit \<longrightarrow>
      (\<exists>ps ins. resolve_kit cat kid = Inr (ps, ins) \<and>
         map Some ps = filter (\<lambda>r. r \<noteq> None) (map (map_of (prompts cat)) (k_prompts kit)) \<and>
         map Some ins =
           filter (\<lambda>r. r \<noteq> None) (map (map_of (instructions cat)) (k_instructions kit))))"
proof (cases "map_of (starter_kits cat) kid")
  case None
  then show ?thesis by (simp add: resolve_kit_def)
next
  case (Some kit)
  have "resolve_kit cat kid =
        Inr (map (\<lambda>pid. the (map_of (prompts cat) pid))
               (filter (\<lambda>pid. map_of (prompts cat) pid \<noteq> None) (k_prompts kit)),
             map (\<lambda>iid. the (map_of (instructions cat) iid))
               (filter (\<lambda>iid. map_of (instructions cat) iid \<noteq> None) (k_instructions kit)))"
    using Some by (simp add: resolve_kit_def)
  with Some show ?thesis
    using resolved_list [of "prompts cat" "k_prompts kit"]
      resolved_list [of "instructions cat" "k_instructions kit"]
    by simp
qed

theorem resolve_kit_lenient_witness:
  "resolve_kit kit_catalog ''kit'' = Inr ([example_prompt ''valid'' ''Do {{x}}''], []) \<and>
   isl (resolve_kit kit_catalog ''ghost'')"
  using resolve_kit_lenient [of kit_catalog "''kit''"] resolve_kit_lenient [of kit_catalog "''ghost''"]
  by (auto simp: kit_catalog_def)

text \<open>
  C7. When every record of the catalog and the requested level are on the four-point
  scale, filtering by \<^verbatim>\<open>skill_level\<close> alone raises nothing and keeps, in the order of the
  catalog, exactly the records ranked at or below the requested level; for
  \<^verbatim>\<open>intermediate\<close> these are the beginner and intermediate records.
\<close>

theorem filter_prompts_max_skill:
  assumes "\<forall>p \<in> set (map snd (prompts cat)). p_skill_level p \<in> set SKILL_ORDER"
    and "lvl \<in> set SKILL_ORDER"
  shows "filter_prompts cat (max_skill lvl) =
           Inr (filter (\<lambda>p. skill_rank (p_skill_level p) \<le> skill_rank lvl)
                  (map snd (prompts cat))) \<and>
         filter_prompts cat (max_skill ''intermediate'') =
           Inr (filter (\<lambda>p. p_skill_level p = ''beginner'' \<or> p_skill_level p = ''intermediate'')
                  (map snd (prompts cat)))"
proof -
  have i: "''intermediate'' \<in> set SKILL_ORDER"
    by (simp add: SKILL_ORDER_def)
  have "filter (\<lambda>p. skill_rank (p_skill_level p) \<le> skill_rank ''intermediate'')
          (map snd (prompts cat)) =
        filter (\<lambda>p. p_skill_level p = ''beginner'' \<or> p_skill_level p = ''intermediate'')
          (map snd (prompts cat))"
    using assms(1) by (intro filter_cong) (auto simp: skill_rank_def SKILL_ORDER_def)
  then show ?thesis
    using assms i by (simp add: filter_prompts_def filter_loop_max_skill)
qed

theorem filter_prompts_max_skill_witness:
  "filter_prompts skill_catalog (max_skill ''intermediate'') =
     Inr [skilled_prompt ''beginner'', skilled_prompt ''intermediate'']"
proof -
  have "\<forall>p \<in> set (map snd (prompts skill_catalog)). p_skill_level p \<in> set SKILL_ORDER"
    by (simp add: skill_catalog_def skilled_prompt_def SKILL_ORDER_def)
  moreover have "''intermediate'' \<in> set SKILL_ORDER"
    by (simp add: SKILL_ORDER_def)
  ultimately show ?thesis
    using filter_prompts_max_skill [of skill_catalog "''intermediate''"]
    by (simp add: skill_catalog_def skilled_prompt_def skill_rank_def)
qed

subsection \<open>Claims on the templates\<close>

lemma findall_split:
  assumes n: "n \<noteq> []" "list_all is_word n"
  shows "s = a @ placeholder n @ b \<Longrightarrow>
         findall_placeholders s = findall_placeholders a @ n # findall_placeholders b"
proof (induction s arbitrary: a rule: findall_placeholders.induct)
  case 1
  then show ?case by (simp add: placeholder_def)
next
  case (2 c cs)
  show ?case
  proof (cases "a = []")
    case True
    with "2.prems" have "match_placeholder (c # cs) = Some (n, b)"
      using match_placeholder_here [OF n, of b] by simp
    with True show ?thesis by simp
  next
    case False
    then obtain a' where a: "a = c # a'" and cs: "cs = a' @ placeholder n @ b"
      using "2.prems" by (cases a) auto
    show ?thesis
    proof (cases "match_placeholder (c # cs)")
      case None
      have "match_placeholder (c # a') = None"
      proof (cases "match_placeholder (c # a')")
        case (Some x)
        obtain m r where "x = (m, r)" by (cases x)
        with Some have "c # a' = placeholder m @ r" "m \<noteq> []" "list_all is_word m"
          by (auto dest: match_placeholder_Some)
        then have "match_placeholder (c # cs) = Some (m, r @ placeholder n @ b)"
          using match_placeholder_here [of m "r @ placeholder n @ b"] cs
          by (metis append.assoc append_Cons)
        with None show ?thesis by simp
      qed simp
      with None "2.IH"(1) [OF None cs] a show ?thesis by simp
    next
      case (Some x)
      obtain m rest where x: "x = (m, rest)" by (cases x)
      note ms = match_placeholder_Some [OF Some [unfolded x]]
      have "prefix ''{{'' (drop (length a) (placeholder m @ rest))"
        using "2.prems" ms(1) by (simp add: placeholder_def)
      with inside_placeholder [OF ms(3), of "length a" rest] False
      have len: "length (placeholder m) \<le> length a"
        by (cases "length a < length m + 4") (auto simp: length_placeholder)
      have "placeholder m @ rest = a @ placeholder n @ b"
        using "2.prems" ms(1) by simp
      with len obtain a'' where a'': "a = placeholder m @ a''" "rest = a'' @ placeholder n @ b"
        by (auto simp: append_eq_append_conv_if) (metis append_take_drop_id)
      have "match_placeholder a = Some (m, a'')"
        unfolding a''(1) using ms by (intro match_placeholder_here)
      with a have "findall_placeholders a = m # findall_placeholders a''"
        by simp
      with "2.IH"(2) [OF Some x [symmetric] a''(2)] Some x show ?thesis by simp
    qed
  qed
qed

lemma word_of_ident: "is_ident_char c \<Longrightarrow> is_word c"
  by (auto simp: is_ident_char_def is_word_def Let_def)


lemma render_Some:
  "render p (Some args) =
   foldl (\<lambda>text (key, value). str_replace (placeholder key) value text) (p_prompt_text p) args"
  by (simp add: render_def)

lemma render_keeps:
  assumes y: "y \<noteq> []" "list_all is_word y"
  shows "\<forall>k \<in> fst ` set args. k \<noteq> [] \<and> list_all is_word k \<and> k \<noteq> y \<Longrightarrow>
         sublist (placeholder y) t \<Longrightarrow>
         sublist (placeholder y)
           (foldl (\<lambda>text (key, value). str_replace (placeholder key) value text) t args)"
proof (induction args arbitrary: t)
  case Nil
  then show ?case by simp
next
  case (Cons kv args)
  obtain k v where kv: "kv = (k, v)" by (cases kv)
  from Cons.prems(1) kv have k: "k \<noteq> []" "list_all is_word k" "k \<noteq> y"
    by auto
  from Cons.prems(2) obtain pre post where "t = pre @ placeholder y @ post"
    by (auto simp: sublist_def)
  then have "sublist (placeholder y) (str_replace (placeholder k) v t)"
    by (rule str_replace_keeps [OF k(1,2) y k(3)])
  moreover from Cons.prems(1)
  have "\<forall>k \<in> fst ` set args. k \<noteq> [] \<and> list_all is_word k \<and> k \<noteq> y"
    by simp
  ultimately show ?case
    using Cons.IH kv by simp
qed

lemma render_settled:
  "\<forall>k \<in> fst ` set args. \<not> sublist (placeholder k) t \<Longrightarrow>
   foldl (\<lambda>text (key, value). str_replace (placeholder key) value text) t args = t"
proof (induction args)
  case Nil
  then show ?case by simp
next
  case (Cons kv args)
  obtain k v where kv: "kv = (k, v)" by (cases kv)
  with Cons.prems have "str_replace (placeholder k) v t = t"
    by (intro str_replace_absent) auto
  with Cons kv show ?case by simp
qed

text \<open>
  C5, as stated. The names are said to match \<^verbatim>\<open>[A-Za-z0-9_]+\<close>. The pattern of the code is
  \<^verbatim>\<open>\w+\<close> on a \<^verbatim>\<open>str\<close>, which takes every alphanumeric code point: the template
  made of two opening braces, the letter of code point 233 (a Latin small e with acute
  accent) and two closing braces yields that letter as a name.
\<close>

theorem extract_variable_names_ident_counterexample:
  "extract_variable_names
     (example_prompt ''p'' [CHR ''{'', CHR ''{'', CHR 0xE9, CHR ''}'', CHR ''}'']) = [[CHR 0xE9]]
   \<and> \<not> list_all is_ident_char [CHR 0xE9]"
  by (simp add: extract_variable_names_def example_prompt_def fromkeys_def
      match_placeholder_def is_word_def is_ident_char_def)

text \<open>
  C5, amended. \<^verbatim>\<open>extract_variable_names\<close> returns the names found by the scan of the
  template, each once, at the place of its first occurrence. The names found are exactly
  the non-empty runs \<open>n\<close> of word characters of \<^verbatim>\<open>\w\<close> (the characters of
  \<^verbatim>\<open>[A-Za-z0-9_]\<close> are among them) for which the template contains \<^verbatim>\<open>{{n}}\<close>, and the scan
  lists them from left to right: around an occurrence it gives the names before it, the
  name, and the names after it. The template \<^verbatim>\<open>Use {{a}} and {{b}} and {{a}} again\<close> yields
  \<^verbatim>\<open>a\<close> and \<^verbatim>\<open>b\<close>.
\<close>

theorem extract_variable_names_first_occurrence:
  "extract_variable_names p = first_occurrences (findall_placeholders (p_prompt_text p)) \<and>
   distinct (extract_variable_names p) \<and>
   set (extract_variable_names p) =
     {n. n \<noteq> [] \<and> list_all is_word n \<and> sublist (placeholder n) (p_prompt_text p)} \<and>
   (n \<noteq> [] \<and> list_all is_word n \<longrightarrow>
      findall_placeholders (a @ placeholder n @ b) =
        findall_placeholders a @ n # findall_placeholders b) \<and>
   (is_ident_char c \<longrightarrow> is_word c) \<and>
   extract_variable_names (example_prompt ''p'' ''Use {{a}} and {{b}} and {{a}} again'') =
     [''a'', ''b'']"
proof -
  have "extract_variable_names (example_prompt ''p'' ''Use {{a}} and {{b}} and {{a}} again'') =
     [''a'', ''b'']"
    by (simp add: extract_variable_names_def example_prompt_def fromkeys_def
        match_placeholder_def is_word_def)
  then show ?thesis
    using findall_split [of n "a @ placeholder n @ b" a b] word_of_ident [of c]
    by (simp add: extract_variable_names_def fromkeys_first_occurrences
        distinct_first_occurrences set_first_occurrences set_findall_placeholders)
qed

theorem extract_variable_names_first_occurrence_witness:
  "extract_variable_names (example_prompt ''p'' ''{{b}} {{a}} {{b}}'') = [''b'', ''a''] \<and>
   findall_placeholders ''{{a}} {{b}}'' = [''a'', ''b''] \<and> is_word CHR ''a''"
proof -
  let ?p = "example_prompt ''p'' ''{{b}} {{a}} {{b}}''"
  note th = extract_variable_names_first_occurrence [of ?p "''b''" "''{{a}} ''" "[]" "CHR ''a''"]
  have hn: "''b'' \<noteq> [] \<and> list_all is_word ''b''"
    by (simp add: is_word_def)
  have hc: "is_ident_char CHR ''a''"
    by (simp add: is_ident_char_def)
  have "extract_variable_names ?p = first_occurrences (findall_placeholders (p_prompt_text ?p))"
    by (rule th [THEN conjunct1])
  then have 1: "extract_variable_names ?p = [''b'', ''a'']"
    by (simp add: example_prompt_def match_placeholder_def is_word_def)
  have "findall_placeholders (''{{a}} '' @ placeholder ''b'' @ []) =
        findall_placeholders ''{{a}} '' @ ''b'' # findall_placeholders []"
    using th [THEN conjunct2, THEN conjunct2, THEN conjunct2, THEN conjunct1] hn
    by (rule mp)
  then have 2: "findall_placeholders ''{{a}} {{b}}'' = [''a'', ''b'']"
    by (simp add: placeholder_def match_placeholder_def is_word_def)
  have 3: "is_word CHR ''a''"
    using th [THEN conjunct2, THEN conjunct2, THEN conjunct2, THEN conjunct2, THEN conjunct1] hc
    by (rule mp)
  from 1 2 3 show ?thesis by simp
qed

text \<open>
  C6, as stated. A second rendering with the same mapping, which supplies every
  placeholder of the template, is said to leave the output unchanged. The mapping
  \<^verbatim>\<open>{b: "B", a: "{{b}}"}\<close> turns the template \<^verbatim>\<open>{{a}}\<close> into \<^verbatim>\<open>{{b}}\<close>, the pass for \<^verbatim>\<open>b\<close>
  coming first, and a second rendering turns that into \<^verbatim>\<open>B\<close>.
\<close>

theorem render_twice_counterexample:
  "render (example_prompt ''p'' ''{{a}}'') (Some [(''b'', ''B''), (''a'', ''{{b}}'')]) = ''{{b}}''
   \<and> render (example_prompt ''p'' ''{{b}}'') (Some [(''b'', ''B''), (''a'', ''{{b}}'')]) = ''B''"
  by (simp add: render_def example_prompt_def placeholder_def)

text \<open>
  C6, amended. \<^verbatim>\<open>render\<close> without arguments returns the template. With a mapping it makes
  one pass of \<^verbatim>\<open>str.replace\<close> for each supplied name, in the order of the mapping, each on
  the text the passes before have left. A pass leaves a text without the placeholder as
  it is, and replaces the occurrences of the placeholder from left to right: up to the
  first one the text stays, the value takes its place, and the pass goes on behind it.
  When the supplied names are names (non-empty runs of word characters), the placeholder
  of any other name that occurs in the template occurs in the output. A second rendering
  with the same mapping leaves the output unchanged when the output contains no
  placeholder of a supplied name. The template \<^verbatim>\<open>{{x}} and {{y}}\<close> with \<^verbatim>\<open>{x: "A"}\<close> gives
  \<^verbatim>\<open>A and {{y}}\<close>.
\<close>

theorem render_partial_safe:
  "render p None = p_prompt_text p \<and>
   render p (Some []) = p_prompt_text p \<and>
   render p (Some (args @ [(k, v)])) = str_replace (placeholder k) v (render p (Some args)) \<and>
   (\<not> sublist (placeholder k) t \<longrightarrow> str_replace (placeholder k) v t = t) \<and>
   ((\<forall>i<length t. \<not> prefix (placeholder k) (drop i (t @ placeholder k @ u))) \<longrightarrow>
      str_replace (placeholder k) v (t @ placeholder k @ u) =
        t @ v @ str_replace (placeholder k) v u) \<and>
   ((\<forall>k \<in> fst ` set args. k \<noteq> [] \<and> list_all is_word k \<and> k \<noteq> y) \<and>
    y \<noteq> [] \<and> list_all is_word y \<and> sublist (placeholder y) (p_prompt_text p) \<longrightarrow>
      sublist (placeholder y) (render p (Some args))) \<and>
   ((\<forall>k \<in> fst ` set args. \<not> sublist (placeholder k) (render p (Some args))) \<longrightarrow>
      render (p\<lparr>p_prompt_text := render p (Some args)\<rparr>) (Some args) = render p (Some args)) \<and>
   render (example_prompt ''p'' ''{{x}} and {{y}}'') (Some [(''x'', ''A'')]) = ''A and {{y}}''"
proof -
  have 1: "render p (Some (args @ [(k, v)])) =
           str_replace (placeholder k) v (render p (Some args))"
    by (simp add: render_Some)
  have 2: "\<not> sublist (placeholder k) t \<longrightarrow> str_replace (placeholder k) v t = t"
    by (simp add: str_replace_absent)
  have 3: "(\<forall>i<length t. \<not> prefix (placeholder k) (drop i (t @ placeholder k @ u))) \<longrightarrow>
      str_replace (placeholder k) v (t @ placeholder k @ u) =
        t @ v @ str_replace (placeholder k) v u"
    using str_replace_first [of "placeholder k" t u v] by simp
  have 4: "(\<forall>k \<in> fst ` set args. k \<noteq> [] \<and> list_all is_word k \<and> k \<noteq> y) \<and>
    y \<noteq> [] \<and> list_all is_word y \<and> sublist (placeholder y) (p_prompt_text p) \<longrightarrow>
      sublist (placeholder y) (render p (Some args))"
    unfolding render_Some using render_keeps [of y args "p_prompt_text p"] by blast
  have 5: "(\<forall>k \<in> fst ` set args. \<not> sublist (placeholder k) (render p (Some args))) \<longrightarrow>
      render (p\<lparr>p_prompt_text := render p (Some args)\<rparr>) (Some args) = render p (Some args)"
    using render_settled [of args "render p (Some args)"] by (simp add: render_Some)
  have 6: "render (example_prompt ''p'' ''{{x}} and {{y}}'') (Some [(''x'', ''A'')]) =
           ''A and {{y}}''"
    by (simp add: render_def example_prompt_def placeholder_def)
  have 0: "render p None = p_prompt_text p" "render p (Some []) = p_prompt_text p"
    by (simp_all add: render_def)
  from 0 1 2 3 4 5 6 show ?thesis by blast
qed

theorem render_partial_safe_witness:
  "sublist ''{{y}}'' (render (example_prompt ''p'' ''{{x}} and {{y}}'') (Some [(''x'', ''A'')])) \<and>
   render (example_prompt ''p'' ''A and {{y}}'') (Some [(''x'', ''A'')]) = ''A and {{y}}'' \<and>
   str_replace ''{{x}}'' ''A'' ''{{y}}{{x}}!'' = ''{{y}}A!'' \<and>
   str_replace ''{{x}}'' ''A'' ''{{y}}'' = ''{{y}}''"
proof -
  let ?p = "example_prompt ''p'' ''{{x}} and {{y}}''"
  let ?args = "[(''x'', ''A'')]"
  note th = render_partial_safe [of ?p ?args "''x''" "''A''" "''{{y}}''" "''!''" "''y''"]
  have ex: "render ?p (Some ?args) = ''A and {{y}}''"
    by (simp add: render_def example_prompt_def placeholder_def)
  have h1: "\<forall>k \<in> fst ` set ?args. k \<noteq> [] \<and> list_all is_word k \<and> k \<noteq> ''y''"
    by (simp add: is_word_def)
  have h2: "''y'' \<noteq> [] \<and> list_all is_word ''y'' \<and> sublist (placeholder ''y'') (p_prompt_text ?p)"
    by (simp add: is_word_def placeholder_def example_prompt_def sublist_Cons_right)
  have h3: "\<forall>k \<in> fst ` set ?args. \<not> sublist (placeholder k) (render ?p (Some ?args))"
    by (simp add: ex placeholder_def sublist_Cons_right)
  have h4: "\<not> sublist (placeholder ''x'') ''{{y}}''"
    by (simp add: placeholder_def sublist_Cons_right)
  have h5: "\<forall>i<length ''{{y}}''. \<not> prefix (placeholder ''x'') (drop i (''{{y}}'' @ placeholder ''x'' @ ''!''))"
    by (simp add: placeholder_def less_Suc_eq)
  have 1: "sublist (placeholder ''y'') (render ?p (Some ?args))"
    using th [THEN conjunct2, THEN conjunct2, THEN conjunct2, THEN conjunct2, THEN conjunct2,
        THEN conjunct1] conjI [OF h1 h2]
    by (rule mp)
  have "render (?p\<lparr>p_prompt_text := render ?p (Some ?args)\<rparr>) (Some ?args) =
        render ?p (Some ?args)"
    using th [THEN conjunct2, THEN conjunct2, THEN conjunct2, THEN conjunct2, THEN conjunct2,
        THEN conjunct2, THEN conjunct1] h3
    by (rule mp)
  then have 2: "render (example_prompt ''p'' ''A and {{y}}'') (Some ?args) = ''A and {{y}}''"
    by (simp add: ex) (simp add: example_prompt_def)
  have "str_replace (placeholder ''x'') ''A'' (''{{y}}'' @ placeholder ''x'' @ ''!'') =
        ''{{y}}'' @ ''A'' @ str_replace (placeholder ''x'') ''A'' ''!''"
    using th [THEN conjunct2, THEN conjunct2, THEN conjunct2, THEN conjunct2, THEN conjunct1] h5
    by (rule mp)
  then have 3: "str_replace ''{{x}}'' ''A'' ''{{y}}{{x}}!'' = ''{{y}}A!''"
    by (simp add: placeholder_def)
  have "str_replace (placeholder ''x'') ''A'' ''{{y}}'' = ''{{y}}''"
    using th [THEN conjunct2, THEN conjunct2, THEN conjunct2, THEN conjunct1] h4
    by (rule mp)
  then have 4: "str_replace ''{{x}}'' ''A'' ''{{y}}'' = ''{{y}}''"
    by (simp add: placeholder_def)
  from 1 2 3 4 show ?thesis
    by (simp add: placeholder_def)
qed

subsection \<open>Loading\<close>

lemma find_at_None: "sub \<noteq> [] \<Longrightarrow> find_at sub s pos = None \<longleftrightarrow> \<not> sublist sub s"
  by (induction s arbitrary: pos) (auto simp: sublist_Cons_right)

lemma find_at_Some: "find_at sub s pos = Some i \<Longrightarrow> pos \<le> i \<and> prefix sub (drop (i - pos) s)"
proof (induction s arbitrary: pos)
  case Nil
  then show ?case by (auto split: if_splits)
next
  case (Cons c cs)
  show ?case
  proof (cases "prefix sub (c # cs)")
    case True
    with Cons.prems show ?thesis by simp
  next
    case False
    with Cons.prems have "find_at sub cs (Suc pos) = Some i" by simp
    from Cons.IH [OF this] have le: "Suc pos \<le> i" and p: "prefix sub (drop (i - Suc pos) cs)"
      by auto
    from le have "i - pos = Suc (i - Suc pos)" by simp
    with le p show ?thesis by simp
  qed
qed

lemma upd_all_Nil [simp]: "upd_all d [] = d"
  by (simp add: upd_all_def)












subsection \<open>Claims on loading\<close>



text \<open>
  C2, as stated. A file without a header block is said not to parse. A text that does not
  begin with the marker parses: the record has the stem of the file as its name and an
  empty description.
\<close>

theorem from_path_no_header_counterexample:
  "InstructionEntry_from_path example_safe_load ''guardrails''
     ''/c/instructions/guardrails/no-fm.instructions.md'' (Text ''# No frontmatter'') =
   Inr \<lparr>i_stem = ''no-fm.instructions'', i_scope = ''guardrails'',
     i_file_path = ''/c/instructions/guardrails/no-fm.instructions.md'',
     i_name = ''no-fm.instructions'', i_description = []\<rparr>"
  by (simp add: InstructionEntry_from_path_def read_frontmatter_def and_then_def path_stem_def
      path_name_def)

text \<open>
  C2, amended. A text that begins with the marker and has no second occurrence of it does
  not parse: \<^verbatim>\<open>from_path\<close> raises \<^verbatim>\<open>ValueError\<close>. A text that does not begin with the marker
  parses into the record of the defaults: the stem as name, the empty description.
\<close>

theorem from_path_header:
  "(\<not> prefix ''---'' text \<longrightarrow>
      InstructionEntry_from_path safe_load scope path (Text text) =
        Inr \<lparr>i_stem = path_stem path, i_scope = scope, i_file_path = path,
          i_name = path_stem path, i_description = []\<rparr>) \<and>
   (prefix ''---'' text \<and> \<not> sublist ''---'' (drop 3 text) \<longrightarrow>
      InstructionEntry_from_path safe_load scope path (Text text) =
        Inl (ValueError ''substring not found''))"
proof -
  have "find_at ''---'' (drop 3 text) 3 = None" if "\<not> sublist ''---'' (drop 3 text)"
    using that find_at_None [of "''---''" "drop 3 text" 3] by simp
  then show ?thesis
    by (simp add: InstructionEntry_from_path_def read_frontmatter_def and_then_def str_index_def)
qed

theorem from_path_header_witness:
  "InstructionEntry_from_path example_safe_load ''phases'' ''/c/instructions/phases/x.instructions.md''
     (Text ''--- name: Test'') = Inl (ValueError ''substring not found'') \<and>
   i_name (projr (InstructionEntry_from_path example_safe_load ''phases''
     ''/c/instructions/phases/x.instructions.md'' (Text ''name: Test''))) = ''x.instructions''"
proof -
  note a = from_path_header [of "''--- name: Test''" example_safe_load "''phases''"
      "''/c/instructions/phases/x.instructions.md''"]
  note b = from_path_header [of "''name: Test''" example_safe_load "''phases''"
      "''/c/instructions/phases/x.instructions.md''"]
  have "prefix ''---'' ''--- name: Test'' \<and> \<not> sublist ''---'' (drop 3 ''--- name: Test'')"
    by (simp add: sublist_Cons_right)
  with a [THEN conjunct2] have 1: "InstructionEntry_from_path example_safe_load ''phases''
      ''/c/instructions/phases/x.instructions.md'' (Text ''--- name: Test'') =
      Inl (ValueError ''substring not found'')"
    by (rule mp)
  have "\<not> prefix ''---'' ''name: Test''"
    by simp
  with b [THEN conjunct1] have "InstructionEntry_from_path example_safe_load ''phases''
      ''/c/instructions/phases/x.instructions.md'' (Text ''name: Test'') =
      Inr \<lparr>i_stem = path_stem ''/c/instructions/phases/x.instructions.md'', i_scope = ''phases'',
        i_file_path = ''/c/instructions/phases/x.instructions.md'',
        i_name = path_stem ''/c/instructions/phases/x.instructions.md'', i_description = []\<rparr>"
    by (rule mp)
  then have 2: "i_name (projr (InstructionEntry_from_path example_safe_load ''phases''
     ''/c/instructions/phases/x.instructions.md'' (Text ''name: Test''))) = ''x.instructions''"
    by (simp add: path_stem_def path_name_def)
  from 1 2 show ?thesis by simp
qed

subsection \<open>Claims on the validator\<close>

lemma glob_single: "suffix ext name \<Longrightarrow> glob ext [(name, f)] = [(name, f)]"
  by (simp add: glob_def)

text \<open>
  C1. A prompt file whose \<^verbatim>\<open>variables\<close> hold an entry without \<^verbatim>\<open>name\<close> makes
  \<^verbatim>\<open>validate_prompts\<close> raise \<^verbatim>\<open>KeyError\<close>, and one whose \<^verbatim>\<open>prompt\<close> is a number makes it raise
  \<^verbatim>\<open>TypeError\<close>, whatever the schema validation reports: no result is returned.
\<close>

theorem validate_prompts_raises:
  "validate_prompts iter_errors (one_prompt_tree bad_variables_doc) =
     Inl (case iter_errors object_schema bad_variables_doc of
            Inl e \<Rightarrow> e | Inr errors \<Rightarrow> KeyError ''name'') \<and>
   validate_prompts iter_errors (one_prompt_tree bad_prompt_doc) =
     Inl (case iter_errors object_schema bad_prompt_doc of
            Inl e \<Rightarrow> e | Inr errors \<Rightarrow> TypeError)"
proof -
  have g: "glob ''.yaml'' [(''bad.yaml'', f)] = [(''bad.yaml'', f)]" for f :: yaml_file
    by (rule glob_single) (simp add: suffix_def)
  have 1: "check_prompt_extras bad_variables_doc rel r = Inl (KeyError ''name'')" for rel r
    by (simp add: check_prompt_extras_def bad_variables_doc_def and_then_def dict_get_def)
  have 2: "check_prompt_extras bad_prompt_doc rel r = Inl TypeError" for rel r
    by (simp add: check_prompt_extras_def bad_prompt_doc_def and_then_def dict_get_def)
  have d: "\<exists>d. bad_variables_doc = PDict d" "\<exists>d. bad_prompt_doc = PDict d"
    by (simp_all add: bad_variables_doc_def bad_prompt_doc_def)
  have f: "validate_prompt_file iter_errors object_schema ''planning'' r
             (''bad.yaml'', Document (PDict d)) =
           and_then (iter_errors object_schema (PDict d)) (\<lambda>errors.
             check_prompt_extras (PDict d) ''prompts/planning/bad.yaml''
               (if errors \<noteq> []
                then foldl (\<lambda>r err. append_issue r ''prompts/planning/bad.yaml''
                              (schema_path (fst err) @ '': '' @ snd err) ''error'')
                       (r\<lparr>files_checked := files_checked r + 1\<rparr>) errors
                else r\<lparr>files_checked := files_checked r + 1,
                       files_passed := files_passed r + 1\<rparr>))" for r d
    by (simp add: validate_prompt_file_def Let_def cong: if_cong)
  have 3: "validate_prompt_file iter_errors object_schema ''planning'' r
             (''bad.yaml'', Document bad_variables_doc) =
           Inl (case iter_errors object_schema bad_variables_doc of
                  Inl e \<Rightarrow> e | Inr errors \<Rightarrow> KeyError ''name'')" for r
  proof -
    from d(1) obtain d where e: "bad_variables_doc = PDict d" ..
    show ?thesis
      by (simp add: f [of r d, folded e] 1 and_then_def split: sum.splits)
  qed
  have 4: "validate_prompt_file iter_errors object_schema ''planning'' r
             (''bad.yaml'', Document bad_prompt_doc) =
           Inl (case iter_errors object_schema bad_prompt_doc of
                  Inl e \<Rightarrow> e | Inr errors \<Rightarrow> TypeError)" for r
  proof -
    from d(2) obtain d where e: "bad_prompt_doc = PDict d" ..
    show ?thesis
      by (simp add: f [of r d, folded e] 2 and_then_def split: sum.splits)
  qed
  have s: "truthy object_schema"
    by (simp add: object_schema_def)
  show ?thesis
    by (simp add: validate_prompts_def one_prompt_tree_def PROMPT_DIRS_def g 3 4 s and_then_def)
qed

lemma issues_append_issue [simp]:
  "issues (append_issue r f m sev) = issues r @ [\<lparr>issue_file = f, message = m, severity = sev\<rparr>]"
  by (simp add: append_issue_def)

lemma check_instruction_short:
  assumes "truthy fm" and "is_dict fm"
  shows "filter (\<lambda>i. message i = short_body_message) (issues (check_instruction rel text end fm r)) =
         filter (\<lambda>i. message i = short_body_message) (issues r) @
           (if length (strip (drop (end + 3) text)) < 50
            then [\<lparr>issue_file = rel, message = short_body_message, severity = ''warning''\<rparr>]
            else [])"
proof -
  have n: "''Frontmatter missing 'name' field'' \<noteq> short_body_message"
    "''Frontmatter missing 'description' field'' \<noteq> short_body_message"
    by (simp_all add: short_body_message_def)
  show ?thesis
    using assms n by (simp add: check_instruction_def Let_def)
qed

lemma validate_instruction_file_header:
  assumes "prefix ''---'' text" and "str_index text ''---'' 3 = Inr end"
    and "safe_load (take (end - 3) (drop 3 text)) = Inr fm"
  shows "validate_instruction_file safe_load scope r (name, Text text) =
         Inr (check_instruction (''instructions/'' @ scope @ ''/'' @ name) text end fm
                (r\<lparr>files_checked := files_checked r + 1\<rparr>))"
  using assms by (simp add: validate_instruction_file_def Let_def and_then_def)

lemma validate_instructions_one:
  assumes "scope \<in> set INSTRUCTION_SCOPES" and "suffix ''.instructions.md'' name"
  shows "validate_instructions safe_load (one_instruction_tree scope name text) =
         validate_instruction_file safe_load scope new_result (name, Text text)"
proof -
  have g: "glob ''.instructions.md'' [(name, Text text)] = [(name, Text text)]"
    using assms(2) by (rule glob_single)
  from assms(1) consider "scope = ''phases''" | "scope = ''guardrails''" | "scope = ''platforms''"
    by (auto simp: INSTRUCTION_SCOPES_def)
  then show ?thesis
    by cases (simp_all add: validate_instructions_def one_instruction_tree_def
        INSTRUCTION_SCOPES_def g and_then_def split: sum.splits)
qed


text \<open>
  C9, as stated. A body of exactly 50 characters is said to receive the warning. The file
  below has a valid header and a body of 50 characters, and the only issue reported is
  the missing description.
\<close>

theorem short_body_fifty_counterexample:
  "validate_instructions example_safe_load
     (one_instruction_tree ''guardrails'' ''t.instructions.md'' (''---name: Test---'' @ fifty)) =
   Inr \<lparr>issues = [\<lparr>issue_file = ''instructions/guardrails/t.instructions.md'',
            message = ''Frontmatter missing 'description' field'', severity = ''warning''\<rparr>],
        files_checked = 1, files_passed = 1\<rparr> \<and>
   length (strip fifty) = 50"
proof -
  have 1: "validate_instruction_file example_safe_load ''guardrails'' new_result
             (''t.instructions.md'', Text (''---name: Test---'' @ fifty)) =
           Inr \<lparr>issues = [\<lparr>issue_file = ''instructions/guardrails/t.instructions.md'',
              message = ''Frontmatter missing 'description' field'', severity = ''warning''\<rparr>],
             files_checked = 1, files_passed = 1\<rparr>"
    by (simp add: validate_instruction_file_def and_then_def str_index_def example_safe_load_def
        check_instruction_def has_key_def dict_get_def new_result_def append_issue_def
        fifty_def strip_def is_space_def)
  have 2: "length (strip fifty) = 50"
    by (simp add: fifty_def strip_def is_space_def)
  have "''guardrails'' \<in> set INSTRUCTION_SCOPES"
    by (simp add: INSTRUCTION_SCOPES_def)
  moreover have "suffix ''.instructions.md'' ''t.instructions.md''"
    by (simp add: suffix_def)
  ultimately show ?thesis
    using 1 2 by (simp add: validate_instructions_one)
qed

text \<open>
  C9, amended. For an instruction file with a valid header block (the text begins with
  the marker, the marker occurs again, and the text between parses to a non-empty
  mapping) the turn of \<^verbatim>\<open>validate_instructions\<close> for the file returns a result, and it
  adds the warning \<^verbatim>\<open>Instruction body is too short (< 50 chars)\<close> for the file, once,
  exactly when the body behind the header, stripped of surrounding white space, has
  fewer than 50 characters; a body of 50 characters gets none. For a catalog whose only
  instruction file this is, the turn is the whole of \<^verbatim>\<open>validate_instructions\<close>.
\<close>

theorem short_body_warning:
  assumes "prefix ''---'' text" and "str_index text ''---'' 3 = Inr endpos"
    and "safe_load (take (endpos - 3) (drop 3 text)) = Inr fm"
    and "truthy fm" and "is_dict fm"
  shows "(\<exists>r'. validate_instruction_file safe_load scope r (name, Text text) = Inr r' \<and>
           filter (\<lambda>i. message i = short_body_message) (issues r') =
           filter (\<lambda>i. message i = short_body_message) (issues r) @
             (if length (strip (drop (endpos + 3) text)) < 50
              then [\<lparr>issue_file = ''instructions/'' @ scope @ ''/'' @ name,
                      message = short_body_message, severity = ''warning''\<rparr>]
              else [])) \<and>
         (scope \<in> set INSTRUCTION_SCOPES \<and> suffix ''.instructions.md'' name \<longrightarrow>
            validate_instructions safe_load (one_instruction_tree scope name text) =
            validate_instruction_file safe_load scope new_result (name, Text text))"
  using assms
  by (simp add: validate_instruction_file_header check_instruction_short
      validate_instructions_one)

theorem short_body_warning_witness:
  "(\<exists>r'. validate_instructions example_safe_load
           (one_instruction_tree ''phases'' ''s.instructions.md'' ''---name: Test--- short '')
         = Inr r' \<and>
         filter (\<lambda>i. message i = short_body_message) (issues r') =
           [\<lparr>issue_file = ''instructions/phases/s.instructions.md'',
              message = short_body_message, severity = ''warning''\<rparr>])"
proof -
  let ?text = "''---name: Test--- short ''"
  have h: "prefix ''---'' ?text" "str_index ?text ''---'' 3 = Inr 13"
    "example_safe_load (take (13 - 3) (drop 3 ?text)) = Inr (PDict [(PStr ''name'', PStr ''Test'')])"
    "truthy (PDict [(PStr ''name'', PStr ''Test'')])" "is_dict (PDict [(PStr ''name'', PStr ''Test'')])"
    by (simp_all add: str_index_def example_safe_load_def)
  note th = short_body_warning [of ?text 13 example_safe_load
      "PDict [(PStr ''name'', PStr ''Test'')]" "''phases''" new_result "''s.instructions.md''",
      OF h]
  have s: "''phases'' \<in> set INSTRUCTION_SCOPES \<and> suffix ''.instructions.md'' ''s.instructions.md''"
    by (simp add: INSTRUCTION_SCOPES_def suffix_def)
  have l: "length (strip (drop (13 + 3) ?text)) < 50"
    by (simp add: strip_def is_space_def)
  have e: "validate_instructions example_safe_load
             (one_instruction_tree ''phases'' ''s.instructions.md'' ?text) =
           validate_instruction_file example_safe_load ''phases'' new_result
             (''s.instructions.md'', Text ?text)"
    using th [THEN conjunct2] s by (rule mp)
  from th [THEN conjunct1] obtain r' where
    "validate_instruction_file example_safe_load ''phases'' new_result
       (''s.instructions.md'', Text ?text) = Inr r'"
    "filter (\<lambda>i. message i = short_body_message) (issues r') =
       filter (\<lambda>i. message i = short_body_message) (issues new_result) @
         (if length (strip (drop (13 + 3) ?text)) < 50
          then [\<lparr>issue_file = ''instructions/'' @ ''phases'' @ ''/'' @ ''s.instructions.md'',
                  message = short_body_message, severity = ''warning''\<rparr>]
          else [])"
    by blast
  with l e show ?thesis
    by (simp add: new_result_def)
qed













end
